theory Spec2Isabelle
  imports Main
begin

section \<open>Ambient package state of \<open>cloud-controller-manager/alicloud\<close>\<close>

text \<open>
  Go strings are byte sequences, modelled as \<^typ>\<open>string\<close>. A Go \<open>error\<close> is modelled by
  its message; a function returning \<open>(T, error)\<close> returns \<open>string + T\<close>, with \<open>Inl\<close> the
  error.

  \<open>clientmgr.go\<close> reads the package-level configuration \<open>cfg.Global\<close> and the constants
  \<open>DEFAULT_REGION\<close> and \<open>KUBERNETES_ALICLOUD_IDENTITY\<close>, all declared in other files of the
  package. They are taken as a parameter of every function that reads them.
\<close>

record Globals =
  cfg_Region :: string
  cfg_VpcID :: string
  cfg_VswitchID :: string
  cfg_ZoneID :: string
  DEFAULT_REGION :: string
  KUBERNETES_ALICLOUD_IDENTITY :: string

text \<open>
  \<open>metadata.RoleAuth\<close> of the vendor SDK; \<open>clientmgr.go\<close> reads the three credential
  fields and copies the struct as a whole.
\<close>

record RoleAuth =
  AccessKeyId :: string
  AccessKeySecret :: string
  SecurityToken :: string

text \<open>
  The instance metadata service is outside the program. Its answers at one moment are a
  record: what \<open>metadata.NewMetaData(nil)\<close> would return for each query the code makes.
\<close>

record MetaService =
  svc_RoleName :: "string + string"
  svc_RamRoleToken :: "string \<Rightarrow> string + RoleAuth"
  svc_Zone :: "string + string"
  svc_Region :: "string + string"

text \<open>
  The two implementations of \<open>IMetaData\<close> that \<open>NewMetaData\<close> can return: the SDK's own
  accessor, or \<open>fakeMetaData\<close> wrapping it as \<open>base\<close>.
\<close>

datatype IMetaData = metaData | fakeMetaData

definition NewMetaData :: "Globals \<Rightarrow> IMetaData" where
  "NewMetaData g =
     (if cfg_Region g \<noteq> [] \<and> cfg_VpcID g \<noteq> [] \<and> cfg_VswitchID g \<noteq> [] \<and> cfg_ZoneID g \<noteq> []
      then fakeMetaData else metaData)"

section \<open>The methods of \<open>fakeMetaData\<close>\<close>

definition fake_Region :: "Globals \<Rightarrow> MetaService \<Rightarrow> string + string" where
  "fake_Region g env = (if cfg_Region g \<noteq> [] then Inr (cfg_Region g) else svc_Region env)"

definition fake_VpcID :: "Globals \<Rightarrow> string + string" where
  "fake_VpcID g = Inr (cfg_VpcID g)"

definition fake_Zone :: "Globals \<Rightarrow> MetaService \<Rightarrow> string + string" where
  "fake_Zone g env = (if cfg_ZoneID g \<noteq> [] then Inr (cfg_ZoneID g) else svc_Zone env)"

definition fake_RoleName :: "string + string" where
  "fake_RoleName = Inl ''unimplemented''"

definition fake_RamRoleToken :: "string \<Rightarrow> string + RoleAuth" where
  "fake_RamRoleToken role = Inl ''unimplemented''"

text \<open>
  \<open>strings.Split(s, sep)\<close> for a separator of one byte: the substrings of \<open>s\<close> between the
  occurrences of the separator, in order. \<open>Split_from cur s c\<close> scans \<open>s\<close> with \<open>cur\<close> the
  bytes read since the last separator. The result is never empty: \<open>Split [] c = [[]]\<close>.
\<close>

fun Split_from :: "string \<Rightarrow> string \<Rightarrow> char \<Rightarrow> string list" where
  "Split_from cur [] c = [cur]"
| "Split_from cur (x # xs) c =
     (if x = c then cur # Split_from [] xs c else Split_from (cur @ [x]) xs c)"

definition Split :: "string \<Rightarrow> char \<Rightarrow> string list" where
  "Split s c = Split_from [] s c"

text \<open>
  The \<open>for _, zone := range zlist\<close> loop of \<open>VswitchID\<close>. The loop variable is called
  \<open>zone\<close> in the source too and hides the instance zone read before the loop, so
  \<open>vs[0] == zone\<close> compares the first part of an entry with the entry itself. \<open>None\<close>: the
  loop ran to its end without returning.
\<close>

fun VswitchID_loop :: "string \<Rightarrow> string list \<Rightarrow> (string + string) option" where
  "VswitchID_loop whole [] = None"
| "VswitchID_loop whole (zone # zlist) =
     (let vs = Split zone CHR '':'' in
      if length vs \<noteq> 2 then Some (Inl (''cloud-config vswitch format error: '' @ whole))
      else if vs ! 0 = zone then Some (Inr (vs ! 1))
      else VswitchID_loop whole zlist)"

definition fake_VswitchID :: "Globals \<Rightarrow> MetaService \<Rightarrow> string + string" where
  "fake_VswitchID g env =
     (let zlist = Split (cfg_VswitchID g) CHR '','' in
      if length zlist = 1 then Inr (cfg_VswitchID g)
      else (case fake_Zone g env of
              Inl err \<Rightarrow> Inl (''retrieve vswitchid error for '' @ err)
            | Inr zone \<Rightarrow>
                (case VswitchID_loop (cfg_VswitchID g) zlist of
                   Some r \<Rightarrow> r
                 | None \<Rightarrow> Inr (cfg_VswitchID g))))"

section \<open>Dispatch through the \<open>IMetaData\<close> interface\<close>

fun RoleName :: "IMetaData \<Rightarrow> MetaService \<Rightarrow> string + string" where
  "RoleName metaData env = svc_RoleName env"
| "RoleName fakeMetaData env = fake_RoleName"

fun RamRoleToken :: "IMetaData \<Rightarrow> MetaService \<Rightarrow> string \<Rightarrow> string + RoleAuth" where
  "RamRoleToken metaData env role = svc_RamRoleToken env role"
| "RamRoleToken fakeMetaData env role = fake_RamRoleToken role"

section \<open>The client manager\<close>

record TokenAuth =
  auth :: RoleAuth
  active :: bool

definition authid :: "TokenAuth \<Rightarrow> string \<times> string \<times> string" where
  "authid token =
     (AccessKeyId (auth token), AccessKeySecret (auth token), SecurityToken (auth token))"

text \<open>
  A client handle of the vendor SDK (\<open>ecs.Client\<close>, \<open>slb.Client\<close>): the credentials it
  stamps requests with, its region and its user agent. The SDK keeps the key ID and the
  security token as they are given and the secret with \<open>&\<close> appended, the key it signs
  requests with: so does the constructor, and so does the setter \<open>WithAccessKeySecret\<close>.
\<close>

record Client =
  clientKeyId :: string
  clientKeySecret :: string
  clientSecurityToken :: string
  clientRegion :: string
  clientUserAgent :: string

definition NewClientWithSecurityToken :: "string \<Rightarrow> string \<Rightarrow> string \<Rightarrow> string \<Rightarrow> Client" where
  "NewClientWithSecurityToken keyid sec tok region =
     \<lparr>clientKeyId = keyid, clientKeySecret = sec @ ''&'', clientSecurityToken = tok,
      clientRegion = region, clientUserAgent = []\<rparr>"

definition SetUserAgent :: "string \<Rightarrow> Client \<Rightarrow> Client" where
  "SetUserAgent ua c = c\<lparr>clientUserAgent := ua\<rparr>"

definition WithSecurityToken :: "string \<Rightarrow> Client \<Rightarrow> Client" where
  "WithSecurityToken tok c = c\<lparr>clientSecurityToken := tok\<rparr>"

definition WithAccessKeyId :: "string \<Rightarrow> Client \<Rightarrow> Client" where
  "WithAccessKeyId k c = c\<lparr>clientKeyId := k\<rparr>"

definition WithAccessKeySecret :: "string \<Rightarrow> Client \<Rightarrow> Client" where
  "WithAccessKeySecret s c = c\<lparr>clientKeySecret := s @ ''&''\<rparr>"

definition credentials :: "Client \<Rightarrow> string \<times> string \<times> string" where
  "credentials c = (clientKeyId c, clientKeySecret c, clientSecurityToken c)"

text \<open>
  What a handle holds when it carries a credential triple: the key ID, the secret with \<open>&\<close>
  appended, and the security token.
\<close>

fun carried :: "string \<times> string \<times> string \<Rightarrow> string \<times> string \<times> string" where
  "carried (keyid, sec, tok) = (keyid, sec @ ''&'', tok)"

text \<open>
  The state a manager lives in. \<open>ecsclient\<close> and \<open>slbclient\<close> are the two handles
  \<open>NewClientMgr\<close> allocates: \<open>mgr.instance.c\<close> and \<open>mgr.routes.client\<close> both point to
  \<open>ecsclient\<close>, \<open>mgr.loadbalancer.c\<close> to \<open>slbclient\<close>, and the refresh closure mutates the
  same two objects. \<open>ROLE_NAME\<close> is the package variable the constructor assigns and the
  closure reads. \<open>refresher\<close> records whether \<open>go wait.Until(...)\<close> was reached. The
  \<open>stop\<close> channel is receive-only and created inside the constructor, so nothing can signal
  it; it has no field.
\<close>

record ClientMgr =
  ROLE_NAME :: string
  token :: TokenAuth
  meta :: IMetaData
  ecsclient :: Client
  slbclient :: Client
  refresher :: bool

definition Instances :: "ClientMgr \<Rightarrow> Client" where
  "Instances c = ecsclient c"

definition Routes :: "ClientMgr \<Rightarrow> Client" where
  "Routes c = ecsclient c"

definition LoadBalancers :: "ClientMgr \<Rightarrow> Client" where
  "LoadBalancers c = slbclient c"

definition MetaData :: "ClientMgr \<Rightarrow> IMetaData" where
  "MetaData c = meta c"

text \<open>The value the package variable \<open>ROLE_NAME\<close> is declared with.\<close>

definition ROLE_NAME_initial :: string where
  "ROLE_NAME_initial = ''KubernetesMasterRole''"

text \<open>
  The tail of the constructor, from \<open>token.authid()\<close> on: it builds the two handles from
  the triple of the token and returns. With an inactive token it returns before
  \<open>go wait.Until(...)\<close>; with an active one it starts the background task first.
\<close>

definition mkClientMgr :: "Globals \<Rightarrow> string \<Rightarrow> TokenAuth \<Rightarrow> IMetaData \<Rightarrow> ClientMgr" where
  "mkClientMgr g rn tk m =
     (case authid tk of (keyid, sec, tok) \<Rightarrow>
        \<lparr>ROLE_NAME = rn, token = tk, meta = m,
         ecsclient = SetUserAgent (KUBERNETES_ALICLOUD_IDENTITY g)
                       (NewClientWithSecurityToken keyid sec tok (DEFAULT_REGION g)),
         slbclient = SetUserAgent (KUBERNETES_ALICLOUD_IDENTITY g)
                       (NewClientWithSecurityToken keyid sec tok (DEFAULT_REGION g)),
         refresher = active tk\<rparr>)"

text \<open>
  \<open>NewClientMgr(key, secret)\<close>. \<open>rn0\<close> is the value of \<open>ROLE_NAME\<close> when the constructor is
  entered, \<open>env\<close> the metadata service's answers while it runs. Only the constructor
  assigns \<open>ROLE_NAME\<close>; when the role token cannot be fetched it returns the error and no
  manager.
\<close>

definition NewClientMgr ::
  "Globals \<Rightarrow> MetaService \<Rightarrow> string \<Rightarrow> string \<Rightarrow> string \<Rightarrow> string + ClientMgr" where
  "NewClientMgr g env rn0 key secret =
     (let token0 = \<lparr>auth = \<lparr>AccessKeyId = key, AccessKeySecret = secret, SecurityToken = []\<rparr>,
                    active = False\<rparr>;
          m = NewMetaData g
      in if key = [] \<or> secret = [] then
           (case RoleName m env of
              Inl err \<Rightarrow> Inl err
            | Inr rolename \<Rightarrow>
                (case RamRoleToken m env rolename of
                   Inl err \<Rightarrow> Inl err
                 | Inr role \<Rightarrow>
                     Inr (mkClientMgr g rolename (token0\<lparr>auth := role, active := True\<rparr>) m)))
         else Inr (mkClientMgr g rn0 token0 m))"

text \<open>
  The closure handed to \<open>wait.Until\<close>: one refresh, run under the write lock of the token,
  with \<open>env\<close> the metadata service's answers at that moment.
\<close>

definition refresh :: "MetaService \<Rightarrow> ClientMgr \<Rightarrow> ClientMgr" where
  "refresh env mgr =
     (case RamRoleToken (meta mgr) env (ROLE_NAME mgr) of
        Inl err \<Rightarrow> mgr
      | Inr role \<Rightarrow>
          mgr\<lparr>token := (token mgr)\<lparr>auth := role\<rparr>,
              ecsclient :=
                WithAccessKeySecret (AccessKeySecret role)
                  (WithAccessKeyId (AccessKeyId role)
                     (WithSecurityToken (SecurityToken role) (ecsclient mgr))),
              slbclient :=
                WithAccessKeySecret (AccessKeySecret role)
                  (WithAccessKeyId (AccessKeyId role)
                     (WithSecurityToken (SecurityToken role) (slbclient mgr)))\<rparr>)"

text \<open>
  One expiry of the resync timer. The closure runs only in a manager whose constructor
  started the background task. A manager's lifetime is a sequence of timer expiries, each
  with the metadata service's answers at that time.
\<close>

definition tick :: "ClientMgr \<Rightarrow> MetaService \<Rightarrow> ClientMgr" where
  "tick mgr env = (if refresher mgr then refresh env mgr else mgr)"

definition lifetime :: "ClientMgr \<Rightarrow> MetaService list \<Rightarrow> ClientMgr" where
  "lifetime mgr envs = foldl tick mgr envs"

text \<open>
  The invariant of credential propagation: both client handles carry the triple stored in
  the token, each holding it the way the SDK keeps it.
\<close>

definition in_sync :: "ClientMgr \<Rightarrow> bool" where
  "in_sync mgr \<longleftrightarrow>
     credentials (ecsclient mgr) = carried (authid (token mgr)) \<and>
     credentials (slbclient mgr) = carried (authid (token mgr))"

section \<open>Sample configurations and metadata answers\<close>

text \<open>
  A process with no metadata overrides in its cloud configuration, a metadata service that
  knows one role and hands out a token for it, the same service after a rotation of the
  token, and a metadata service that is unreachable.
\<close>

definition plain_globals :: Globals where
  "plain_globals =
     \<lparr>cfg_Region = [], cfg_VpcID = [], cfg_VswitchID = [], cfg_ZoneID = [],
      DEFAULT_REGION = ''cn-hangzhou'', KUBERNETES_ALICLOUD_IDENTITY = ''Kubernetes.Alicloud''\<rparr>"

definition first_role_token :: RoleAuth where
  "first_role_token =
     \<lparr>AccessKeyId = ''STS.first'', AccessKeySecret = ''secret-1'', SecurityToken = ''token-1''\<rparr>"

definition second_role_token :: RoleAuth where
  "second_role_token =
     \<lparr>AccessKeyId = ''STS.second'', AccessKeySecret = ''secret-2'', SecurityToken = ''token-2''\<rparr>"

definition service_with :: "RoleAuth \<Rightarrow> MetaService" where
  "service_with role =
     \<lparr>svc_RoleName = Inr ''KubernetesWorkerRole'',
      svc_RamRoleToken =
        (\<lambda>r. if r = ''KubernetesWorkerRole'' then Inr role else Inl ''role not found''),
      svc_Zone = Inr ''cn-hangzhou-b'', svc_Region = Inr ''cn-hangzhou''\<rparr>"

definition service_down :: MetaService where
  "service_down =
     \<lparr>svc_RoleName = Inl ''timeout'', svc_RamRoleToken = (\<lambda>r. Inl ''timeout''),
      svc_Zone = Inl ''timeout'', svc_Region = Inl ''timeout''\<rparr>"

definition role_manager :: ClientMgr where
  "role_manager =
     mkClientMgr plain_globals ''KubernetesWorkerRole''
       \<lparr>auth = first_role_token, active = True\<rparr> metaData"

section \<open>The load balancer client: data and the test double of \<open>loadbalancer_test.go\<close>\<close>

text \<open>
  \<open>slb.LoadBalancerType\<close> with the fields \<open>newBaseLoadbalancer\<close> sets. \<open>CreateTimeStamp\<close> is
  the clock reading of \<open>time.Now()\<close>.
\<close>

record LoadBalancerType =
  LoadBalancerId :: string
  LoadBalancerName :: string
  LoadBalancerStatus :: string
  Address :: string
  RegionId :: string
  RegionIdAlias :: string
  AddressType :: string
  VSwitchId :: string
  VpcId :: string
  NetworkType :: string
  Bandwidth :: int
  InternetChargeType :: string
  CreateTime :: string
  CreateTimeStamp :: nat

definition LOADBALANCER_ID :: string where
  "LOADBALANCER_ID = ''lb-bp1ids9hmq5924m6uk5w1''"

definition LOADBALANCER_NAME :: string where
  "LOADBALANCER_NAME = ''a594334ad276811e8a62700163e10c02''"

definition LOADBALANCER_ADDRESS :: string where
  "LOADBALANCER_ADDRESS = ''47.97.241.114''"

definition LOADBALANCER_NETWORK_TYPE :: string where
  "LOADBALANCER_NETWORK_TYPE = ''classic''"

definition newBaseLoadbalancer :: "nat \<Rightarrow> LoadBalancerType list" where
  "newBaseLoadbalancer now =
     [\<lparr>LoadBalancerId = LOADBALANCER_ID,
       LoadBalancerName = LOADBALANCER_NAME,
       LoadBalancerStatus = ''active'',
       Address = LOADBALANCER_ADDRESS,
       RegionId = ''cn-hangzhou'',
       RegionIdAlias = ''cn-hangzhou'',
       AddressType = ''internet'',
       VSwitchId = [],
       VpcId = [],
       NetworkType = LOADBALANCER_NETWORK_TYPE,
       Bandwidth = 0,
       InternetChargeType = ''4'',
       CreateTime = ''2018-03-14T17:16Z'',
       CreateTimeStamp = now\<rparr>]"

text \<open>
  The two fields of \<open>slb.DescribeLoadBalancersArgs\<close> by which a query selects records.
\<close>

record DescribeLoadBalancersArgs =
  arg_LoadBalancerId :: string
  arg_LoadBalancerName :: string

text \<open>
  The vendor's \<open>DescribeLoadBalancers\<close> as the resolver sees it: a query, the state of the
  remote side before it, the answer and the state after it.
\<close>

type_synonym 'st DescribeLoadBalancers =
  "DescribeLoadBalancersArgs \<Rightarrow> 'st \<Rightarrow> (string + LoadBalancerType list) \<times> 'st"

text \<open>
  The \<open>describeLoadBalancers\<close> closure of \<open>TestFindLoadBalancer\<close>. It captures the slice
  \<open>base\<close>, overwrites a field of \<open>base[0]\<close> with what the query asks for and returns the
  slice; the slice is the state. Indexing an empty slice panics.
\<close>

definition describeLoadBalancers :: "LoadBalancerType list DescribeLoadBalancers" where
  "describeLoadBalancers args base =
     (if arg_LoadBalancerId args \<noteq> [] then
        (case base of
           [] \<Rightarrow> (Inl ''panic: runtime error: index out of range'', base)
         | b # bs \<Rightarrow>
             (Inr (b\<lparr>LoadBalancerId := arg_LoadBalancerId args\<rparr> # bs),
              b\<lparr>LoadBalancerId := arg_LoadBalancerId args\<rparr> # bs))
      else if arg_LoadBalancerName args \<noteq> [] then
        (case base of
           [] \<Rightarrow> (Inl ''panic: runtime error: index out of range'', base)
         | b # bs \<Rightarrow>
             (Inr (b\<lparr>LoadBalancerName := arg_LoadBalancerName args\<rparr> # bs),
              b\<lparr>LoadBalancerName := arg_LoadBalancerName args\<rparr> # bs))
      else (Inl ''loadbalancerid or loadbanancername must be specified.\<newline>'', base))"

text \<open>
  The part of \<open>v1.Service\<close> that \<open>TestFindLoadBalancer\<close> builds and changes: the object
  metadata, the type of the spec and the ingress list of the load balancer status.
\<close>

record LoadBalancerIngress =
  IP :: string
  Hostname :: string

record Service =
  Namespace :: string
  Name :: string
  UID :: string
  Annotations :: "string \<rightharpoonup> string"
  SpecType :: string
  Ingress :: "LoadBalancerIngress list"

definition service_test :: Service where
  "service_test =
     \<lparr>Namespace = ''default'', Name = ''service-test'', UID = ''abcdefghigklmnopqrstu'',
      Annotations = Map.empty, SpecType = ''LoadBalancer'', Ingress = []\<rparr>"

section \<open>The load balancer resolver\<close>

text \<open>
  Modelled from the spec: the annotation key \<open>ServiceAnnotationLoadBalancerId\<close>, which the
  test uses and another file of the package declares. The spec's scenarios call the
  annotation \<open>loadbalancer-id\<close>.
\<close>

definition ServiceAnnotationLoadBalancerId :: string where
  "ServiceAnnotationLoadBalancerId = ''loadbalancer-id''"

text \<open>
  Modelled from the spec: \<open>loadBalancerDomain\<close>, which the test calls and another file of the
  package defines. The spec gives the ingress hostname the form
  \<open><service-name>.<loadbalancer-id>.<region>\<close>.
\<close>

definition loadBalancerDomain :: "string \<Rightarrow> string \<Rightarrow> string \<Rightarrow> string" where
  "loadBalancerDomain name lbid region = name @ ''.'' @ lbid @ ''.'' @ region"

text \<open>
  Modelled from the spec: parsing the load balancer ID out of an ingress hostname of the
  form \<open><service-name>.<loadbalancer-id>.<region>\<close>. The hostname is cut at its dots; with a
  service name, an ID and a region present, the ID is the second field. A hostname with
  fewer than three fields encodes no ID.
\<close>

definition lbidFromHostname :: "string \<Rightarrow> string option" where
  "lbidFromHostname hostname =
     (let parts = Split hostname CHR ''.'' in
      if 3 \<le> length parts then Some (parts ! 1) else None)"

text \<open>
  Modelled from the spec: whether the ingress status of the service contains a hostname
  that encodes a load balancer ID, and the ID of the first such entry.
\<close>

fun lbidFromIngress :: "LoadBalancerIngress list \<Rightarrow> string option" where
  "lbidFromIngress [] = None"
| "lbidFromIngress (ingress # rest) =
     (case lbidFromHostname (Hostname ingress) of
        Some lbid \<Rightarrow> Some lbid
      | None \<Rightarrow> lbidFromIngress rest)"

definition fromLoadBalancerStatus :: "Service \<Rightarrow> string option" where
  "fromLoadBalancerStatus service = lbidFromIngress (Ingress service)"

text \<open>
  The result of \<open>findLoadBalancer\<close>, \<open>(exists, record, error)\<close> in the source: \<open>Inl err\<close> is a
  non-nil error, \<open>Inr None\<close> is \<open>exists = false\<close> with a nil error, \<open>Inr (Some lb)\<close> is
  \<open>exists = true\<close> with the record.
\<close>

type_synonym find_result = "string + LoadBalancerType option"

text \<open>
  Modelled from the spec: fetching a load balancer by its ID, step 1 and step 2 of the
  resolution in the spec's section 4.1. A fetch that fails, by an error of the vendor API
  or because no record has the ID, is a hard error; the spec's section 7 says the same of
  an explicit ID and of an ID parsed from a hostname.
\<close>

definition findLoadBalancerByID ::
  "'st DescribeLoadBalancers \<Rightarrow> string \<Rightarrow> 'st \<Rightarrow> find_result \<times> 'st" where
  "findLoadBalancerByID api lbid st =
     (case api \<lparr>arg_LoadBalancerId = lbid, arg_LoadBalancerName = []\<rparr> st of
        (Inl err, st') \<Rightarrow> (Inl err, st')
      | (Inr [], st') \<Rightarrow> (Inl (''alicloud: can not find loadbalancer by id '' @ lbid), st')
      | (Inr (lb # lbs), st') \<Rightarrow> (Inr (Some lb), st'))"

text \<open>
  Modelled from the spec: looking a load balancer up by name, step 3 of the resolution.
  Zero matches are not-found and no error (step 4); an error of the vendor API is
  surfaced unchanged (section 7, transient failures); otherwise the first record is the
  result.
\<close>

definition findLoadBalancerByName ::
  "'st DescribeLoadBalancers \<Rightarrow> string \<Rightarrow> 'st \<Rightarrow> find_result \<times> 'st" where
  "findLoadBalancerByName api name st =
     (case api \<lparr>arg_LoadBalancerId = [], arg_LoadBalancerName = name\<rparr> st of
        (Inl err, st') \<Rightarrow> (Inl err, st')
      | (Inr [], st') \<Rightarrow> (Inr None, st')
      | (Inr (lb # lbs), st') \<Rightarrow> (Inr (Some lb), st'))"

text \<open>
  Modelled from the spec: \<open>findLoadBalancer\<close>, which the test calls and another file of the
  package defines. The three identity sources are tried in the order of the spec's
  section 4.1 and the first that applies decides. \<open>GetLoadBalancerName\<close> is the naming
  function of the Kubernetes cloud provider library that the test compares with; it is a
  parameter.
\<close>

definition findLoadBalancer ::
  "(Service \<Rightarrow> string) \<Rightarrow> 'st DescribeLoadBalancers \<Rightarrow> Service \<Rightarrow> 'st \<Rightarrow> find_result \<times> 'st" where
  "findLoadBalancer GetLoadBalancerName api service st =
     (case Annotations service ServiceAnnotationLoadBalancerId of
        Some lbid \<Rightarrow> findLoadBalancerByID api lbid st
      | None \<Rightarrow>
          (case fromLoadBalancerStatus service of
             Some lbid \<Rightarrow> findLoadBalancerByID api lbid st
           | None \<Rightarrow> findLoadBalancerByName api (GetLoadBalancerName service) st))"

text \<open>
  A naming function to run the test with: the letter \<open>a\<close> before the UID of the service.
\<close>

definition name_from_uid :: "Service \<Rightarrow> string" where
  "name_from_uid service = ''a'' @ UID service"

text \<open>A vendor that has no load balancer at all, and one whose API is throttled.\<close>

definition describe_nothing :: "unit DescribeLoadBalancers" where
  "describe_nothing args st = (Inr [], st)"

definition describe_throttled :: "unit DescribeLoadBalancers" where
  "describe_throttled args st = (Inl ''Throttling'', st)"

text \<open>
  The states of the service in \<open>TestFindLoadBalancer\<close>: with the ID annotation of step 2,
  with the ingress entry of step 3, and with both. \<open>DEFAULT_REGION\<close> is read as
  \<open>cn-hangzhou\<close>, the region of the spec's scenario.
\<close>

definition test_ingress :: LoadBalancerIngress where
  "test_ingress =
     \<lparr>IP = LOADBALANCER_ADDRESS,
      Hostname = loadBalancerDomain ''my-service'' (LOADBALANCER_ID @ ''-ingress'') ''cn-hangzhou''\<rparr>"

definition service_annotated :: Service where
  "service_annotated =
     service_test\<lparr>Annotations :=
       [ServiceAnnotationLoadBalancerId \<mapsto> LOADBALANCER_ID @ ''-new'']\<rparr>"

definition service_ingress :: Service where
  "service_ingress = service_test\<lparr>Ingress := [test_ingress]\<rparr>"

definition service_all_three :: Service where
  "service_all_three = service_annotated\<lparr>Ingress := [test_ingress]\<rparr>"

section \<open>Backend server membership\<close>

text \<open>
  \<open>slb.BackendServerType\<close> as the signatures of \<open>AddBackendServers\<close> and
  \<open>RemoveBackendServers\<close> in \<open>mockClientSLB\<close> use it: a node identifier and its weight.
\<close>

record BackendServerType =
  ServerId :: string
  Weight :: int

text \<open>The two mutation calls on the membership, with their arguments.\<close>

datatype slb_call =
  AddBackendServers string "BackendServerType list"
| RemoveBackendServers string "string list"

text \<open>
  Modelled from the spec: the vendor's side of the backend membership of one load balancer,
  an assumed capability in the spec's section 6. The vendor holds the membership and
  applies a mutation call that succeeds; \<open>vendor_calls\<close> records every mutation call it
  receives. Whether a call succeeds is the vendor's answer, \<open>None\<close> for success and
  \<open>Some err\<close> for a failure, which leaves the membership as it was.
\<close>

record slb_vendor =
  vendor_backends :: "BackendServerType list"
  vendor_calls :: "slb_call list"

record vendor_answers =
  add_answer :: "string option"
  remove_answer :: "string option"

definition vendor_AddBackendServers ::
  "string option \<Rightarrow> string \<Rightarrow> BackendServerType list \<Rightarrow> slb_vendor \<Rightarrow> string option \<times> slb_vendor" where
  "vendor_AddBackendServers answer lbid servers v =
     (answer,
      v\<lparr>vendor_backends :=
          (if answer = None then vendor_backends v @ servers else vendor_backends v),
        vendor_calls := vendor_calls v @ [AddBackendServers lbid servers]\<rparr>)"

definition vendor_RemoveBackendServers ::
  "string option \<Rightarrow> string \<Rightarrow> string list \<Rightarrow> slb_vendor \<Rightarrow> string option \<times> slb_vendor" where
  "vendor_RemoveBackendServers answer lbid ids v =
     (answer,
      v\<lparr>vendor_backends :=
          (if answer = None then filter (\<lambda>s. ServerId s \<notin> set ids) (vendor_backends v)
           else vendor_backends v),
        vendor_calls := vendor_calls v @ [RemoveBackendServers lbid ids]\<rparr>)"

text \<open>
  Modelled from the spec: step 3 of the reconciler in the spec's section 4.2, whose code is
  in another file of the package. The node set backing the service is compared with the
  current membership by node identifier; missing nodes are added, with the weight given,
  and extras are removed. A call is issued only when there is something to add or to
  remove, and a failed call aborts the rest of the pass and is returned to the caller.
  The result is the error, \<open>None\<close> for nil, and the vendor's side after the pass.
\<close>

definition reconcileBackendServers ::
  "vendor_answers \<Rightarrow> string \<Rightarrow> int \<Rightarrow> string list \<Rightarrow> slb_vendor \<Rightarrow> string option \<times> slb_vendor" where
  "reconcileBackendServers answers lbid weight nodes v =
     (let current = map ServerId (vendor_backends v);
          additions = map (\<lambda>n. \<lparr>ServerId = n, Weight = weight\<rparr>)
                        (filter (\<lambda>n. n \<notin> set current) nodes);
          removals = filter (\<lambda>c. c \<notin> set nodes) current
      in case (if additions = [] then (None, v)
               else vendor_AddBackendServers (add_answer answers) lbid additions v) of
           (Some err, v') \<Rightarrow> (Some err, v')
         | (None, v') \<Rightarrow>
             (if removals = [] then (None, v')
              else vendor_RemoveBackendServers (remove_answer answers) lbid removals v'))"

text \<open>A vendor that accepts every call.\<close>

definition answers_ok :: vendor_answers where
  "answers_ok = \<lparr>add_answer = None, remove_answer = None\<rparr>"

definition vendor_one_stale :: slb_vendor where
  "vendor_one_stale =
     \<lparr>vendor_backends = [\<lparr>ServerId = ''i-old'', Weight = 100\<rparr>], vendor_calls = []\<rparr>"

section \<open>Properties of \<open>Split\<close>\<close>

lemma length_Split_from: "length (Split_from cur s c) = Suc (count_list s c)"
  by (induction s arbitrary: cur) simp_all

lemma length_Split: "length (Split s c) = Suc (count_list s c)"
  by (simp add: Split_def length_Split_from)

lemma length_Split_one: "length (Split s c) = Suc 0 \<longleftrightarrow> c \<notin> set s"
  by (simp add: length_Split count_list_0_iff)

lemma Split_from_parts_free:
  "e \<in> set (Split_from cur s c) \<Longrightarrow> c \<notin> set cur \<Longrightarrow> c \<notin> set e"
proof (induction s arbitrary: cur)
  case Nil
  then show ?case by simp
next
  case (Cons x xs)
  show ?case
  proof (cases "x = c")
    case True
    with Cons.prems have "e = cur \<or> e \<in> set (Split_from [] xs c)" by simp
    then show ?thesis
      using Cons.prems(2) Cons.IH [of "[]"] by auto
  next
    case False
    with Cons.prems have "e \<in> set (Split_from (cur @ [x]) xs c)" by simp
    moreover have "c \<notin> set (cur @ [x])"
      using False Cons.prems(2) by simp
    ultimately show ?thesis by (rule Cons.IH)
  qed
qed

lemma Split_parts_free: "e \<in> set (Split s c) \<Longrightarrow> c \<notin> set e"
  using Split_from_parts_free [of e "[]" s c] by (simp add: Split_def)

lemma Split_from_parts_subset:
  "e \<in> set (Split_from cur s c) \<Longrightarrow> set e \<subseteq> set cur \<union> set s"
proof (induction s arbitrary: cur)
  case Nil
  then show ?case by simp
next
  case (Cons x xs)
  show ?case
  proof (cases "x = c")
    case True
    with Cons.prems have "e = cur \<or> e \<in> set (Split_from [] xs c)" by simp
    then show ?thesis
      using Cons.IH [of "[]"] by auto
  next
    case False
    with Cons.prems have "e \<in> set (Split_from (cur @ [x]) xs c)" by simp
    then have "set e \<subseteq> set (cur @ [x]) \<union> set xs" by (rule Cons.IH)
    then show ?thesis by auto
  qed
qed

lemma Split_parts_subset: "e \<in> set (Split s c) \<Longrightarrow> set e \<subseteq> set s"
  using Split_from_parts_subset [of e "[]" s c] by (simp add: Split_def)

section \<open>\<open>fakeMetaData.VswitchID\<close> on a multi-entry configuration\<close>

lemma Split_two_first_differs:
  assumes "length (Split e c) = 2"
  shows "Split e c ! 0 \<noteq> e"
proof
  assume eq: "Split e c ! 0 = e"
  have "Split e c ! 0 \<in> set (Split e c)"
    using assms by simp
  then have "c \<notin> set (Split e c ! 0)"
    by (rule Split_parts_free)
  then have "c \<notin> set e"
    using eq by simp
  then have "length (Split e c) = 1"
    by (simp add: length_Split_one)
  then show False
    using assms by simp
qed

lemma VswitchID_loop_all_two:
  "\<forall>e\<in>set zlist. length (Split e CHR '':'') = 2 \<Longrightarrow> VswitchID_loop whole zlist = None"
  by (induction zlist) (simp_all add: Split_two_first_differs)

lemma VswitchID_loop_some_bad:
  "\<exists>e\<in>set zlist. length (Split e CHR '':'') \<noteq> 2 \<Longrightarrow>
   VswitchID_loop whole zlist = Some (Inl (''cloud-config vswitch format error: '' @ whole))"
proof (induction zlist)
  case Nil
  then show ?case by simp
next
  case (Cons z zs)
  show ?case
  proof (cases "length (Split z CHR '':'') = 2")
    case True
    with Cons.prems have "\<exists>e\<in>set zs. length (Split e CHR '':'') \<noteq> 2"
      by auto
    then have "VswitchID_loop whole zs =
        Some (Inl (''cloud-config vswitch format error: '' @ whole))"
      by (rule Cons.IH)
    with True show ?thesis
      by (simp add: Split_two_first_differs)
  next
    case False
    then show ?thesis by simp
  qed
qed

lemma vswitch_part_differs:
  assumes comma: "CHR '','' \<in> set whole"
    and entry: "e \<in> set (Split whole CHR '','')"
    and two: "length (Split e CHR '':'') = 2"
  shows "Split e CHR '':'' ! 1 \<noteq> whole"
proof
  assume eq: "Split e CHR '':'' ! 1 = whole"
  have "Split e CHR '':'' ! 1 \<in> set (Split e CHR '':'')"
    using two by simp
  then have "set (Split e CHR '':'' ! 1) \<subseteq> set e"
    by (rule Split_parts_subset)
  moreover have "CHR '','' \<notin> set e"
    using entry by (rule Split_parts_free)
  ultimately show False
    using comma eq by auto
qed

text \<open>
  C10. Let the configured VSwitch string contain a comma and let the zone lookup succeed.
  If every comma-separated entry has exactly one colon, \<open>VswitchID\<close> returns the whole
  configured string, and this is not the part after the colon of any entry: the loop
  variable hides the instance zone, so the comparison in the loop never succeeds. If some
  entry does not split into exactly two parts at colons, \<open>VswitchID\<close> returns the format
  error.
\<close>

theorem VswitchID_multi_entry:
  assumes comma: "CHR '','' \<in> set (cfg_VswitchID g)"
    and zone: "fake_Zone g env = Inr z"
  shows "((\<forall>e\<in>set (Split (cfg_VswitchID g) CHR '',''). count_list e CHR '':'' = 1) \<longrightarrow>
            fake_VswitchID g env = Inr (cfg_VswitchID g) \<and>
            (\<forall>e\<in>set (Split (cfg_VswitchID g) CHR '',''). 
                fake_VswitchID g env \<noteq> Inr (Split e CHR '':'' ! 1))) \<and>
         ((\<exists>e\<in>set (Split (cfg_VswitchID g) CHR '',''). length (Split e CHR '':'') \<noteq> 2) \<longrightarrow>
            fake_VswitchID g env =
              Inl (''cloud-config vswitch format error: '' @ cfg_VswitchID g))"
proof (intro conjI impI)
  have multi: "length (Split (cfg_VswitchID g) CHR '','') \<noteq> 1"
    using comma by (simp add: length_Split_one)
  {
    assume one: "\<forall>e\<in>set (Split (cfg_VswitchID g) CHR '',''). count_list e CHR '':'' = 1"
    then have two: "\<forall>e\<in>set (Split (cfg_VswitchID g) CHR '',''). length (Split e CHR '':'') = 2"
      by (simp add: length_Split)
    then have "VswitchID_loop (cfg_VswitchID g) (Split (cfg_VswitchID g) CHR '','') = None"
      by (rule VswitchID_loop_all_two)
    then show whole: "fake_VswitchID g env = Inr (cfg_VswitchID g)"
      using multi zone by (simp add: fake_VswitchID_def Let_def)
    show "\<forall>e\<in>set (Split (cfg_VswitchID g) CHR '',''). 
            fake_VswitchID g env \<noteq> Inr (Split e CHR '':'' ! 1)"
    proof
      fix e
      assume e: "e \<in> set (Split (cfg_VswitchID g) CHR '','')"
      with two have "length (Split e CHR '':'') = 2" by simp
      with comma e have "Split e CHR '':'' ! 1 \<noteq> cfg_VswitchID g"
        by (rule vswitch_part_differs)
      then show "fake_VswitchID g env \<noteq> Inr (Split e CHR '':'' ! 1)"
        using whole by auto
    qed
  }
  {
    assume "\<exists>e\<in>set (Split (cfg_VswitchID g) CHR '',''). length (Split e CHR '':'') \<noteq> 2"
    then have "VswitchID_loop (cfg_VswitchID g) (Split (cfg_VswitchID g) CHR '','') =
        Some (Inl (''cloud-config vswitch format error: '' @ cfg_VswitchID g))"
      by (rule VswitchID_loop_some_bad)
    then show "fake_VswitchID g env =
        Inl (''cloud-config vswitch format error: '' @ cfg_VswitchID g)"
      using multi zone by (simp add: fake_VswitchID_def Let_def)
  }
qed

theorem VswitchID_multi_entry_witness:
  "fake_VswitchID
     \<lparr>cfg_Region = ''cn-hangzhou'', cfg_VpcID = ''vpc-1'',
      cfg_VswitchID = ''zone1:vswitchid1,zone2:vswitch2'', cfg_ZoneID = ''zone1'',
      DEFAULT_REGION = ''cn-hangzhou'', KUBERNETES_ALICLOUD_IDENTITY = ''k8s''\<rparr>
     \<lparr>svc_RoleName = Inl ''down'', svc_RamRoleToken = (\<lambda>r. Inl ''down''),
      svc_Zone = Inl ''down'', svc_Region = Inl ''down''\<rparr>
   = Inr ''zone1:vswitchid1,zone2:vswitch2'' \<and>
   fake_VswitchID
     \<lparr>cfg_Region = ''cn-hangzhou'', cfg_VpcID = ''vpc-1'',
      cfg_VswitchID = ''zone1:vswitchid1,zone2'', cfg_ZoneID = ''zone1'',
      DEFAULT_REGION = ''cn-hangzhou'', KUBERNETES_ALICLOUD_IDENTITY = ''k8s''\<rparr>
     \<lparr>svc_RoleName = Inl ''down'', svc_RamRoleToken = (\<lambda>r. Inl ''down''),
      svc_Zone = Inl ''down'', svc_Region = Inl ''down''\<rparr>
   = Inl ''cloud-config vswitch format error: zone1:vswitchid1,zone2''"
  using
    VswitchID_multi_entry [of
      "\<lparr>cfg_Region = ''cn-hangzhou'', cfg_VpcID = ''vpc-1'',
        cfg_VswitchID = ''zone1:vswitchid1,zone2:vswitch2'', cfg_ZoneID = ''zone1'',
        DEFAULT_REGION = ''cn-hangzhou'', KUBERNETES_ALICLOUD_IDENTITY = ''k8s''\<rparr>"
      "\<lparr>svc_RoleName = Inl ''down'', svc_RamRoleToken = (\<lambda>r. Inl ''down''),
        svc_Zone = Inl ''down'', svc_Region = Inl ''down''\<rparr>"
      "''zone1''"]
    VswitchID_multi_entry [of
      "\<lparr>cfg_Region = ''cn-hangzhou'', cfg_VpcID = ''vpc-1'',
        cfg_VswitchID = ''zone1:vswitchid1,zone2'', cfg_ZoneID = ''zone1'',
        DEFAULT_REGION = ''cn-hangzhou'', KUBERNETES_ALICLOUD_IDENTITY = ''k8s''\<rparr>"
      "\<lparr>svc_RoleName = Inl ''down'', svc_RamRoleToken = (\<lambda>r. Inl ''down''),
        svc_Zone = Inl ''down'', svc_Region = Inl ''down''\<rparr>"
      "''zone1''"]
  by (simp add: fake_Zone_def Split_def)

section \<open>The credential mode of a manager\<close>

lemma lifetime_Nil: "lifetime mgr [] = mgr"
  by (simp add: lifetime_def)

lemma lifetime_Cons: "lifetime mgr (env # envs) = lifetime (tick mgr env) envs"
  by (simp add: lifetime_def)

lemma refresh_keeps_mode:
  "active (token (refresh env mgr)) = active (token mgr) \<and>
   refresher (refresh env mgr) = refresher mgr \<and>
   meta (refresh env mgr) = meta mgr \<and>
   ROLE_NAME (refresh env mgr) = ROLE_NAME mgr"
  by (simp add: refresh_def split: sum.splits)

lemma tick_keeps_mode:
  "active (token (tick mgr env)) = active (token mgr) \<and>
   refresher (tick mgr env) = refresher mgr \<and>
   meta (tick mgr env) = meta mgr \<and>
   ROLE_NAME (tick mgr env) = ROLE_NAME mgr"
  by (simp add: tick_def refresh_keeps_mode)

lemma lifetime_keeps_mode:
  "active (token (lifetime mgr envs)) = active (token mgr) \<and>
   refresher (lifetime mgr envs) = refresher mgr"
proof (induction envs arbitrary: mgr)
  case Nil
  show ?case by (simp add: lifetime_Nil)
next
  case (Cons env envs)
  show ?case
    using Cons.IH [of "tick mgr env"] by (simp add: lifetime_Cons tick_keeps_mode)
qed

lemma lifetime_without_refresher: "\<not> refresher mgr \<Longrightarrow> lifetime mgr envs = mgr"
  by (induction envs) (simp_all add: lifetime_Nil lifetime_Cons tick_def)

lemma NewClientMgr_explicit:
  assumes "key \<noteq> []" and "secret \<noteq> []"
  shows "NewClientMgr g env rn0 key secret =
     Inr (mkClientMgr g rn0
            \<lparr>auth = \<lparr>AccessKeyId = key, AccessKeySecret = secret, SecurityToken = []\<rparr>,
             active = False\<rparr>
            (NewMetaData g))"
  using assms by (simp add: NewClientMgr_def)

lemma mkClientMgr_fields:
  "token (mkClientMgr g rn tk m) = tk \<and>
   meta (mkClientMgr g rn tk m) = m \<and>
   ROLE_NAME (mkClientMgr g rn tk m) = rn \<and>
   refresher (mkClientMgr g rn tk m) = active tk \<and>
   credentials (ecsclient (mkClientMgr g rn tk m)) = carried (authid tk) \<and>
   credentials (slbclient (mkClientMgr g rn tk m)) = carried (authid tk)"
  by (simp add: mkClientMgr_def authid_def credentials_def SetUserAgent_def
      NewClientWithSecurityToken_def)

text \<open>
  C5. \<open>NewClientMgr\<close> puts exactly one credential mode in effect, chosen by whether key and
  secret are both non-empty. With both given the constructor succeeds, the token is not
  active and the credential triple is the key, the secret and the empty token. Otherwise the
  constructor exchanges the role name for a role token: either it returns the error of the
  exchange and no manager, or the token is active and holds the fetched role token. In both
  modes the \<open>active\<close> flag keeps its value through every later timer expiry.
\<close>

theorem NewClientMgr_mode:
  "(key \<noteq> [] \<and> secret \<noteq> [] \<longrightarrow>
      (\<exists>mgr. NewClientMgr g env rn0 key secret = Inr mgr \<and>
         \<not> active (token mgr) \<and> authid (token mgr) = (key, secret, []) \<and>
         (\<forall>envs. \<not> active (token (lifetime mgr envs))))) \<and>
   (key = [] \<or> secret = [] \<longrightarrow>
      (case NewClientMgr g env rn0 key secret of
         Inl err \<Rightarrow>
           RoleName (NewMetaData g) env = Inl err \<or>
           (\<exists>rolename. RoleName (NewMetaData g) env = Inr rolename \<and>
              RamRoleToken (NewMetaData g) env rolename = Inl err)
       | Inr mgr \<Rightarrow>
           active (token mgr) \<and>
           (\<exists>rolename role. RoleName (NewMetaData g) env = Inr rolename \<and>
              RamRoleToken (NewMetaData g) env rolename = Inr role \<and>
              auth (token mgr) = role) \<and>
           (\<forall>envs. active (token (lifetime mgr envs)))))"
proof (intro conjI impI)
  assume "key \<noteq> [] \<and> secret \<noteq> []"
  then have "NewClientMgr g env rn0 key secret =
     Inr (mkClientMgr g rn0
            \<lparr>auth = \<lparr>AccessKeyId = key, AccessKeySecret = secret, SecurityToken = []\<rparr>,
             active = False\<rparr>
            (NewMetaData g))"
    by (simp add: NewClientMgr_explicit)
  then show "\<exists>mgr. NewClientMgr g env rn0 key secret = Inr mgr \<and>
         \<not> active (token mgr) \<and> authid (token mgr) = (key, secret, []) \<and>
         (\<forall>envs. \<not> active (token (lifetime mgr envs)))"
    by (simp add: mkClientMgr_fields lifetime_keeps_mode authid_def)
next
  assume "key = [] \<or> secret = []"
  then show "case NewClientMgr g env rn0 key secret of
         Inl err \<Rightarrow>
           RoleName (NewMetaData g) env = Inl err \<or>
           (\<exists>rolename. RoleName (NewMetaData g) env = Inr rolename \<and>
              RamRoleToken (NewMetaData g) env rolename = Inl err)
       | Inr mgr \<Rightarrow>
           active (token mgr) \<and>
           (\<exists>rolename role. RoleName (NewMetaData g) env = Inr rolename \<and>
              RamRoleToken (NewMetaData g) env rolename = Inr role \<and>
              auth (token mgr) = role) \<and>
           (\<forall>envs. active (token (lifetime mgr envs)))"
    by (auto simp add: NewClientMgr_def Let_def mkClientMgr_fields lifetime_keeps_mode
        split: sum.splits)
qed

lemma NewClientMgr_role_sample:
  "NewClientMgr plain_globals (service_with first_role_token) ROLE_NAME_initial [] [] =
     Inr role_manager"
  by (simp add: NewClientMgr_def NewMetaData_def plain_globals_def service_with_def
      role_manager_def)

theorem NewClientMgr_mode_witness:
  "(\<exists>mgr. NewClientMgr plain_globals service_down ROLE_NAME_initial ''LTAI-key'' ''key-secret''
            = Inr mgr \<and>
          \<not> active (token mgr) \<and> authid (token mgr) = (''LTAI-key'', ''key-secret'', []) \<and>
          (\<forall>envs. \<not> active (token (lifetime mgr envs)))) \<and>
   active (token role_manager) \<and>
   auth (token role_manager) = first_role_token \<and>
   (\<forall>envs. active (token (lifetime role_manager envs)))"
  using
    NewClientMgr_mode [where key = "''LTAI-key''" and secret = "''key-secret''"
      and g = plain_globals and env = service_down and ?rn0.0 = ROLE_NAME_initial]
    NewClientMgr_mode [where key = "[]" and secret = "[]"
      and g = plain_globals and env = "service_with first_role_token"
      and ?rn0.0 = ROLE_NAME_initial]
  by (simp add: NewClientMgr_role_sample)
    (simp add: role_manager_def mkClientMgr_fields)

section \<open>Refreshing the role token\<close>

lemma tick_failed:
  "RamRoleToken (meta mgr) env (ROLE_NAME mgr) = Inl err \<Longrightarrow> tick mgr env = mgr"
  by (simp add: tick_def refresh_def)

text \<open>
  C6. A refresh whose role-token fetch returns an error changes nothing: the manager state
  after the step is the state before it, in particular the triple stored in the token and
  the triples of the ECS and SLB handles. The step returns, and the manager goes on from the
  unchanged state: its lifetime after the failed attempt is its lifetime without it.
\<close>

theorem refresh_failure_keeps_credentials:
  assumes "RamRoleToken (meta mgr) env (ROLE_NAME mgr) = Inl err"
  shows "refresh env mgr = mgr \<and>
         authid (token (refresh env mgr)) = authid (token mgr) \<and>
         credentials (ecsclient (refresh env mgr)) = credentials (ecsclient mgr) \<and>
         credentials (slbclient (refresh env mgr)) = credentials (slbclient mgr) \<and>
         (\<forall>envs. lifetime mgr (env # envs) = lifetime mgr envs)"
proof -
  have same: "refresh env mgr = mgr"
    using assms by (simp add: refresh_def)
  have "tick mgr env = mgr"
    using assms by (rule tick_failed)
  then have "\<forall>envs. lifetime mgr (env # envs) = lifetime mgr envs"
    by (simp add: lifetime_Cons)
  with same show ?thesis by simp
qed

theorem refresh_failure_keeps_credentials_witness:
  "refresh service_down role_manager = role_manager \<and>
   authid (token (refresh service_down role_manager)) = (''STS.first'', ''secret-1'', ''token-1'') \<and>
   credentials (ecsclient (refresh service_down role_manager)) =
     (''STS.first'', ''secret-1&'', ''token-1'') \<and>
   credentials (slbclient (refresh service_down role_manager)) =
     (''STS.first'', ''secret-1&'', ''token-1'') \<and>
   (\<forall>envs. lifetime role_manager (service_down # envs) = lifetime role_manager envs)"
  using refresh_failure_keeps_credentials [of role_manager service_down "''timeout''"]
  by (simp add: role_manager_def service_down_def mkClientMgr_fields authid_def
      first_role_token_def)

lemma refresh_success:
  assumes "RamRoleToken (meta mgr) env (ROLE_NAME mgr) = Inr role"
  shows "auth (token (refresh env mgr)) = role \<and>
         credentials (ecsclient (refresh env mgr)) =
           (AccessKeyId role, AccessKeySecret role @ ''&'', SecurityToken role) \<and>
         credentials (slbclient (refresh env mgr)) =
           (AccessKeyId role, AccessKeySecret role @ ''&'', SecurityToken role)"
  using assms
  by (simp add: refresh_def credentials_def WithAccessKeySecret_def WithAccessKeyId_def
      WithSecurityToken_def)

lemma refresh_success_in_sync:
  assumes "RamRoleToken (meta mgr) env (ROLE_NAME mgr) = Inr role"
  shows "in_sync (refresh env mgr)"
  using refresh_success [OF assms] by (simp add: in_sync_def authid_def)

lemma refresh_in_sync: "in_sync mgr \<Longrightarrow> in_sync (refresh env mgr)"
proof (cases "RamRoleToken (meta mgr) env (ROLE_NAME mgr)")
  case (Inl err)
  assume "in_sync mgr"
  with Inl show ?thesis by (simp add: refresh_def)
next
  case (Inr role)
  then show ?thesis
    using refresh_success [OF Inr] by (simp add: in_sync_def authid_def)
qed

lemma tick_in_sync: "in_sync mgr \<Longrightarrow> in_sync (tick mgr env)"
  by (simp add: tick_def refresh_in_sync)

lemma lifetime_in_sync: "in_sync mgr \<Longrightarrow> in_sync (lifetime mgr envs)"
proof (induction envs arbitrary: mgr)
  case Nil
  then show ?case by (simp add: lifetime_Nil)
next
  case (Cons env envs)
  from Cons.prems have "in_sync (tick mgr env)" by (rule tick_in_sync)
  then have "in_sync (lifetime (tick mgr env) envs)" by (rule Cons.IH)
  then show ?case by (simp add: lifetime_Cons)
qed

lemma NewClientMgr_in_sync:
  "NewClientMgr g env rn0 key secret = Inr mgr \<Longrightarrow> in_sync mgr"
  by (auto simp add: NewClientMgr_def Let_def in_sync_def mkClientMgr_fields
      split: if_splits sum.splits)

text \<open>
  C7. After a refresh whose role-token fetch succeeds, the token holds the fetched role
  token and the ECS and SLB handles carry its triple: each holds the key ID and the
  security token of the role token and, as the SDK keeps a secret, its secret with \<open>&\<close>
  appended. That the handles carry the triple of the token holds for the manager
  \<open>NewClientMgr\<close> returns, is kept by every refresh step, failed or successful, and so
  holds after every sequence of timer expiries.
\<close>

theorem credential_propagation:
  "(RamRoleToken (meta m) e (ROLE_NAME m) = Inr role \<longrightarrow>
      auth (token (refresh e m)) = role \<and>
      credentials (ecsclient (refresh e m)) =
        (AccessKeyId role, AccessKeySecret role @ ''&'', SecurityToken role) \<and>
      credentials (slbclient (refresh e m)) =
        (AccessKeyId role, AccessKeySecret role @ ''&'', SecurityToken role) \<and>
      in_sync (refresh e m)) \<and>
   (in_sync m \<longrightarrow> in_sync (refresh e m)) \<and>
   (NewClientMgr g env rn0 key secret = Inr mgr \<longrightarrow>
      in_sync mgr \<and> (\<forall>envs. in_sync (lifetime mgr envs)))"
  using refresh_success [of m e role] refresh_success_in_sync [of m e role]
    refresh_in_sync [of m e]
    NewClientMgr_in_sync [of g env rn0 key secret mgr] lifetime_in_sync [of mgr]
  by blast

theorem credential_propagation_witness:
  "auth (token (refresh (service_with second_role_token) role_manager)) = second_role_token \<and>
   credentials (ecsclient (refresh (service_with second_role_token) role_manager)) =
     (''STS.second'', ''secret-2&'', ''token-2'') \<and>
   credentials (slbclient (refresh (service_with second_role_token) role_manager)) =
     (''STS.second'', ''secret-2&'', ''token-2'') \<and>
   in_sync role_manager \<and>
   in_sync (refresh (service_with second_role_token) role_manager) \<and>
   (\<forall>envs. in_sync (lifetime role_manager envs))"
proof -
  have fetch: "RamRoleToken (meta role_manager) (service_with second_role_token)
      (ROLE_NAME role_manager) = Inr second_role_token"
    by (simp add: role_manager_def mkClientMgr_fields service_with_def)
  have sync: "in_sync role_manager"
    by (simp add: in_sync_def role_manager_def mkClientMgr_fields)
  show ?thesis
    using fetch sync NewClientMgr_role_sample
      credential_propagation [where m = role_manager
        and e = "service_with second_role_token" and role = second_role_token
        and g = plain_globals and env = "service_with first_role_token"
        and ?rn0.0 = ROLE_NAME_initial and key = "[]" and secret = "[]"
        and mgr = role_manager]
    by (simp add: second_role_token_def)
qed

text \<open>
  C8. A manager constructed with key and secret both non-empty is returned before the
  background task is started. No refresh step runs in it: after any sequence of timer
  expiries it is the manager the constructor returned, and \<open>authid\<close> gives the key, the
  secret and the empty token.
\<close>

theorem explicit_mode_terminal:
  assumes "key \<noteq> []" and "secret \<noteq> []"
  shows "\<exists>mgr. NewClientMgr g env rn0 key secret = Inr mgr \<and>
           \<not> refresher mgr \<and>
           (\<forall>envs. lifetime mgr envs = mgr \<and>
                    authid (token (lifetime mgr envs)) = (key, secret, []))"
proof -
  let ?mgr = "mkClientMgr g rn0
            \<lparr>auth = \<lparr>AccessKeyId = key, AccessKeySecret = secret, SecurityToken = []\<rparr>,
             active = False\<rparr>
            (NewMetaData g)"
  have made: "NewClientMgr g env rn0 key secret = Inr ?mgr"
    using assms by (rule NewClientMgr_explicit)
  have idle: "\<not> refresher ?mgr"
    by (simp add: mkClientMgr_fields)
  then have still: "\<forall>envs. lifetime ?mgr envs = ?mgr"
    by (simp add: lifetime_without_refresher)
  have "authid (token ?mgr) = (key, secret, [])"
    by (simp add: mkClientMgr_fields authid_def)
  with made idle still show ?thesis by simp
qed

theorem explicit_mode_terminal_witness:
  "\<exists>mgr. NewClientMgr plain_globals (service_with first_role_token) ROLE_NAME_initial
            ''LTAI-key'' ''key-secret'' = Inr mgr \<and>
         \<not> refresher mgr \<and>
         (\<forall>envs. lifetime mgr envs = mgr \<and>
                  authid (token (lifetime mgr envs)) = (''LTAI-key'', ''key-secret'', []))"
  using explicit_mode_terminal [of "''LTAI-key''" "''key-secret''" plain_globals
      "service_with first_role_token" ROLE_NAME_initial]
  by simp

section \<open>The resolution order of \<open>findLoadBalancer\<close>\<close>

lemma describeLoadBalancers_by_name:
  "name \<noteq> [] \<Longrightarrow>
   describeLoadBalancers \<lparr>arg_LoadBalancerId = [], arg_LoadBalancerName = name\<rparr> (b # bs) =
     (Inr (b\<lparr>LoadBalancerName := name\<rparr> # bs), b\<lparr>LoadBalancerName := name\<rparr> # bs)"
  by (simp add: describeLoadBalancers_def)

lemma describeLoadBalancers_by_id:
  "lbid \<noteq> [] \<Longrightarrow>
   describeLoadBalancers \<lparr>arg_LoadBalancerId = lbid, arg_LoadBalancerName = []\<rparr> (b # bs) =
     (Inr (b\<lparr>LoadBalancerId := lbid\<rparr> # bs), b\<lparr>LoadBalancerId := lbid\<rparr> # bs)"
  by (simp add: describeLoadBalancers_def)

text \<open>
  C1. \<open>findLoadBalancer\<close> tries the identity sources in a fixed order and the first that
  applies decides. With the explicit ID annotation present the result is the fetch by the
  annotated ID, whatever the ingress status and the derived name are. Without it, and with
  an ingress hostname that encodes an ID, the result is the fetch by that ID. Otherwise the
  result is the lookup by the derived name. A fetch by ID, or a lookup by name, that the
  vendor answers with records resolves to the first of them, with \<open>exists = true\<close>. With
  the vendor double of \<open>TestFindLoadBalancer\<close>, the lookup by a
  non-empty derived name finds a record whose \<open>LoadBalancerName\<close> is the derived name.
\<close>

theorem findLoadBalancer_precedence:
  "(Annotations service ServiceAnnotationLoadBalancerId = Some lbid \<longrightarrow>
      findLoadBalancer derive api service st = findLoadBalancerByID api lbid st) \<and>
   (Annotations service ServiceAnnotationLoadBalancerId = None \<and>
    fromLoadBalancerStatus service = Some lbid \<longrightarrow>
      findLoadBalancer derive api service st = findLoadBalancerByID api lbid st) \<and>
   (Annotations service ServiceAnnotationLoadBalancerId = None \<and>
    fromLoadBalancerStatus service = None \<longrightarrow>
      findLoadBalancer derive api service st =
        findLoadBalancerByName api (derive service) st) \<and>
   (api \<lparr>arg_LoadBalancerId = lbid, arg_LoadBalancerName = []\<rparr> st = (Inr (lb # lbs), st') \<longrightarrow>
      findLoadBalancerByID api lbid st = (Inr (Some lb), st')) \<and>
   (api \<lparr>arg_LoadBalancerId = [], arg_LoadBalancerName = name\<rparr> st = (Inr (lb # lbs), st') \<longrightarrow>
      findLoadBalancerByName api name st = (Inr (Some lb), st')) \<and>
   (Annotations service ServiceAnnotationLoadBalancerId = None \<and>
    fromLoadBalancerStatus service = None \<and> derive service \<noteq> [] \<longrightarrow>
      (\<exists>found base'.
         findLoadBalancer derive describeLoadBalancers service (b # bs) =
           (Inr (Some found), base') \<and>
         LoadBalancerName found = derive service))"
  by (simp add: findLoadBalancer_def findLoadBalancerByID_def findLoadBalancerByName_def
      describeLoadBalancers_by_name)

text \<open>
  C3. For a service with no explicit ID annotation and no ingress hostname that encodes an
  ID, when the lookup by the derived name is answered with zero records,
  \<open>findLoadBalancer\<close> returns \<open>exists = false\<close> and a nil error.
\<close>

theorem findLoadBalancer_not_found:
  assumes "Annotations service ServiceAnnotationLoadBalancerId = None"
    and "fromLoadBalancerStatus service = None"
    and "api \<lparr>arg_LoadBalancerId = [], arg_LoadBalancerName = derive service\<rparr> st = (Inr [], st')"
  shows "findLoadBalancer derive api service st = (Inr None, st')"
  using assms by (simp add: findLoadBalancer_def findLoadBalancerByName_def)

text \<open>
  C4. For a service with the explicit ID annotation, when the fetch by that ID is answered
  with an error or with zero records, \<open>findLoadBalancer\<close> returns an error. The result is
  that of the fetch by the annotated ID alone: it is the same for every ingress status and
  every derived name, and the remote side is left as that one query left it.
\<close>

theorem explicit_id_failure_is_hard_error:
  assumes "Annotations service ServiceAnnotationLoadBalancerId = Some lbid"
    and "fst (api \<lparr>arg_LoadBalancerId = lbid, arg_LoadBalancerName = []\<rparr> st) = Inl e \<or>
         fst (api \<lparr>arg_LoadBalancerId = lbid, arg_LoadBalancerName = []\<rparr> st) = Inr []"
  shows "(\<exists>err. fst (findLoadBalancer derive api service st) = Inl err) \<and>
         (\<forall>derive' ingress'.
            findLoadBalancer derive' api (service\<lparr>Ingress := ingress'\<rparr>) st =
              findLoadBalancer derive api service st) \<and>
         snd (findLoadBalancer derive api service st) =
           snd (api \<lparr>arg_LoadBalancerId = lbid, arg_LoadBalancerName = []\<rparr> st)"
proof -
  obtain r st' where q: "api \<lparr>arg_LoadBalancerId = lbid, arg_LoadBalancerName = []\<rparr> st = (r, st')"
    by (cases "api \<lparr>arg_LoadBalancerId = lbid, arg_LoadBalancerName = []\<rparr> st")
  with assms(2) have r: "r = Inl e \<or> r = Inr []" by simp
  have by_id: "\<And>d s. Annotations s ServiceAnnotationLoadBalancerId = Some lbid \<Longrightarrow>
      findLoadBalancer d api s st = findLoadBalancerByID api lbid st"
    by (simp add: findLoadBalancer_def)
  have failed: "\<exists>err. findLoadBalancerByID api lbid st = (Inl err, st')"
    using q r by (auto simp add: findLoadBalancerByID_def)
  have "\<forall>derive' ingress'.
      findLoadBalancer derive' api (service\<lparr>Ingress := ingress'\<rparr>) st =
        findLoadBalancer derive api service st"
    using assms(1) by (simp add: by_id)
  then show ?thesis
    using failed q assms(1) by (auto simp add: by_id)
qed

lemma test_ingress_lbid:
  "lbidFromHostname (Hostname test_ingress) = Some ''lb-bp1ids9hmq5924m6uk5w1-ingress''"
  by (simp add: test_ingress_def loadBalancerDomain_def LOADBALANCER_ID_def lbidFromHostname_def
      Split_def)

lemma service_states:
  "Annotations service_test ServiceAnnotationLoadBalancerId = None \<and>
   fromLoadBalancerStatus service_test = None \<and>
   name_from_uid service_test = ''aabcdefghigklmnopqrstu'' \<and>
   Annotations service_annotated ServiceAnnotationLoadBalancerId =
     Some ''lb-bp1ids9hmq5924m6uk5w1-new'' \<and>
   Annotations service_ingress ServiceAnnotationLoadBalancerId = None \<and>
   fromLoadBalancerStatus service_ingress = Some ''lb-bp1ids9hmq5924m6uk5w1-ingress'' \<and>
   Annotations service_all_three ServiceAnnotationLoadBalancerId =
     Some ''lb-bp1ids9hmq5924m6uk5w1-new'' \<and>
   fromLoadBalancerStatus service_all_three = Some ''lb-bp1ids9hmq5924m6uk5w1-ingress''"
  by (simp add: service_test_def service_annotated_def service_ingress_def
      service_all_three_def fromLoadBalancerStatus_def test_ingress_lbid name_from_uid_def
      LOADBALANCER_ID_def)

text \<open>
  \<open>TestFindLoadBalancer\<close> run on the resolver: the three calls in the order of the test,
  each on the slice the call before it left. The first finds a record under the derived
  name, the second the record of the annotated ID, the third the record of the ID in the
  ingress hostname; none returns an error.
\<close>

lemma TestFindLoadBalancer_passes:
  "(case findLoadBalancer name_from_uid describeLoadBalancers service_test
           (newBaseLoadbalancer now) of
      (r1, base1) \<Rightarrow>
        (case findLoadBalancer name_from_uid describeLoadBalancers service_annotated base1 of
           (r2, base2) \<Rightarrow>
             (case findLoadBalancer name_from_uid describeLoadBalancers service_ingress base2 of
                (r3, base3) \<Rightarrow>
                  (map_sum id (map_option LoadBalancerName) r1,
                   map_sum id (map_option LoadBalancerId) r2,
                   map_sum id (map_option LoadBalancerId) r3)))) =
   (Inr (Some (name_from_uid service_test)),
    Inr (Some (LOADBALANCER_ID @ ''-new'')),
    Inr (Some (LOADBALANCER_ID @ ''-ingress'')))"
  by (simp add: findLoadBalancer_def findLoadBalancerByID_def findLoadBalancerByName_def
      describeLoadBalancers_def service_states newBaseLoadbalancer_def LOADBALANCER_ID_def)

theorem findLoadBalancer_precedence_witness:
  "(\<exists>lb base'. findLoadBalancer name_from_uid describeLoadBalancers service_all_three
        (newBaseLoadbalancer 0) = (Inr (Some lb), base') \<and>
      LoadBalancerId lb = ''lb-bp1ids9hmq5924m6uk5w1-new'') \<and>
   (\<exists>lb base'. findLoadBalancer name_from_uid describeLoadBalancers service_ingress
        (newBaseLoadbalancer 0) = (Inr (Some lb), base') \<and>
      LoadBalancerId lb = ''lb-bp1ids9hmq5924m6uk5w1-ingress'') \<and>
   (\<exists>lb base'. findLoadBalancer name_from_uid describeLoadBalancers service_test
        (newBaseLoadbalancer 0) = (Inr (Some lb), base') \<and>
      LoadBalancerName lb = ''aabcdefghigklmnopqrstu'')"
proof -
  let ?new = "''lb-bp1ids9hmq5924m6uk5w1-new''"
  let ?ing = "''lb-bp1ids9hmq5924m6uk5w1-ingress''"
  obtain b where base: "newBaseLoadbalancer 0 = [b]"
    by (simp add: newBaseLoadbalancer_def)
  have q_new: "describeLoadBalancers \<lparr>arg_LoadBalancerId = ?new, arg_LoadBalancerName = []\<rparr> [b] =
      (Inr [b\<lparr>LoadBalancerId := ?new\<rparr>], [b\<lparr>LoadBalancerId := ?new\<rparr>])"
    by (simp add: describeLoadBalancers_by_id)
  have q_ing: "describeLoadBalancers \<lparr>arg_LoadBalancerId = ?ing, arg_LoadBalancerName = []\<rparr> [b] =
      (Inr [b\<lparr>LoadBalancerId := ?ing\<rparr>], [b\<lparr>LoadBalancerId := ?ing\<rparr>])"
    by (simp add: describeLoadBalancers_by_id)
  have first: "findLoadBalancer name_from_uid describeLoadBalancers service_all_three [b] =
      (Inr (Some (b\<lparr>LoadBalancerId := ?new\<rparr>)), [b\<lparr>LoadBalancerId := ?new\<rparr>])"
    using q_new service_states
      findLoadBalancer_precedence [where service = service_all_three and lbid = ?new
        and derive = name_from_uid and api = describeLoadBalancers
        and st = "[b]" and lb = "b\<lparr>LoadBalancerId := ?new\<rparr>"
        and lbs = "[]" and st' = "[b\<lparr>LoadBalancerId := ?new\<rparr>]"
        and name = "[]"]
    by simp
  have second: "findLoadBalancer name_from_uid describeLoadBalancers service_ingress [b] =
      (Inr (Some (b\<lparr>LoadBalancerId := ?ing\<rparr>)), [b\<lparr>LoadBalancerId := ?ing\<rparr>])"
    using q_ing service_states
      findLoadBalancer_precedence [where service = service_ingress and lbid = ?ing
        and derive = name_from_uid and api = describeLoadBalancers
        and st = "[b]" and lb = "b\<lparr>LoadBalancerId := ?ing\<rparr>"
        and lbs = "[]" and st' = "[b\<lparr>LoadBalancerId := ?ing\<rparr>]"
        and name = "[]"]
    by simp
  have named: "name_from_uid service_test \<noteq> []"
    by (simp add: name_from_uid_def)
  have "\<exists>lb base'. findLoadBalancer name_from_uid describeLoadBalancers service_test [b] =
        (Inr (Some lb), base') \<and>
      LoadBalancerName lb = name_from_uid service_test"
    using named service_states
      findLoadBalancer_precedence [where service = service_test and derive = name_from_uid
        and b = b and bs = "[]" and api = describeLoadBalancers
        and st = "[b]" and lbid = "[]" and lb = b and lbs = "[]" and st' = "[]"
        and name = "[]"]
    by blast
  then have third: "\<exists>lb base'. findLoadBalancer name_from_uid describeLoadBalancers
        service_test [b] = (Inr (Some lb), base') \<and>
      LoadBalancerName lb = ''aabcdefghigklmnopqrstu''"
    using service_states by simp
  from first second third show ?thesis
    by (simp add: base)
qed

theorem findLoadBalancer_not_found_witness:
  "findLoadBalancer name_from_uid describe_nothing service_test () = (Inr None, ())"
  using service_states
    findLoadBalancer_not_found [where service = service_test and derive = name_from_uid
      and api = describe_nothing and st = "()" and st' = "()"]
  by (simp add: describe_nothing_def)

theorem explicit_id_failure_is_hard_error_witness:
  "(\<exists>err. fst (findLoadBalancer name_from_uid describe_nothing service_all_three ()) = Inl err) \<and>
   (\<forall>derive' ingress'.
      findLoadBalancer derive' describe_nothing (service_all_three\<lparr>Ingress := ingress'\<rparr>) () =
        findLoadBalancer name_from_uid describe_nothing service_all_three ()) \<and>
   (\<exists>err. fst (findLoadBalancer name_from_uid describe_throttled service_all_three ()) = Inl err)"
  using service_states
    explicit_id_failure_is_hard_error [where service = service_all_three
      and lbid = "''lb-bp1ids9hmq5924m6uk5w1-new''" and api = describe_nothing and st = "()"
      and e = "''none''" and derive = name_from_uid]
    explicit_id_failure_is_hard_error [where service = service_all_three
      and lbid = "''lb-bp1ids9hmq5924m6uk5w1-new''" and api = describe_throttled and st = "()"
      and e = "''Throttling''" and derive = name_from_uid]
  by (simp add: describe_nothing_def describe_throttled_def)

section \<open>The ingress hostname\<close>

lemma Split_from_field:
  "c \<notin> set a \<Longrightarrow> Split_from cur (a @ c # rest) c = (cur @ a) # Split_from [] rest c"
  by (induction a arbitrary: cur) auto

lemma Split_field: "c \<notin> set a \<Longrightarrow> Split (a @ c # rest) c = a # Split rest c"
  using Split_from_field [of c a "[]" rest] by (simp add: Split_def)

lemma Split_loadBalancerDomain:
  assumes "CHR ''.'' \<notin> set name" and "CHR ''.'' \<notin> set lbid"
  shows "Split (loadBalancerDomain name lbid region) CHR ''.'' =
           name # lbid # Split region CHR ''.''"
proof -
  have "Split (name @ CHR ''.'' # (lbid @ CHR ''.'' # region)) CHR ''.'' =
      name # Split (lbid @ CHR ''.'' # region) CHR ''.''"
    using assms(1) by (rule Split_field)
  also have "Split (lbid @ CHR ''.'' # region) CHR ''.'' = lbid # Split region CHR ''.''"
    using assms(2) by (rule Split_field)
  finally show ?thesis
    by (simp add: loadBalancerDomain_def)
qed

lemma lbidFromHostname_loadBalancerDomain:
  assumes "CHR ''.'' \<notin> set name" and "CHR ''.'' \<notin> set lbid"
  shows "lbidFromHostname (loadBalancerDomain name lbid region) = Some lbid"
  using Split_loadBalancerDomain [OF assms, of region]
  by (simp add: lbidFromHostname_def length_Split)

lemma lbidFromIngress_only:
  assumes "ingress \<in> set ingresses"
    and "lbidFromHostname (Hostname ingress) = Some lbid"
    and "\<forall>i\<in>set ingresses.
           lbidFromHostname (Hostname i) = None \<or> lbidFromHostname (Hostname i) = Some lbid"
  shows "lbidFromIngress ingresses = Some lbid"
  using assms
proof (induction ingresses)
  case Nil
  then show ?case by simp
next
  case (Cons i rest)
  show ?case
  proof (cases "lbidFromHostname (Hostname i)")
    case (Some found)
    with Cons.prems(3) have "found = lbid" by simp
    with Some show ?thesis by simp
  next
    case None
    with Cons.prems(1,2) have "ingress \<in> set rest" by auto
    then have "lbidFromIngress rest = Some lbid"
      using Cons.prems(2,3) by (simp add: Cons.IH)
    with None show ?thesis by simp
  qed
qed

text \<open>
  C2. The ingress hostname round-trips. A service name is a DNS label and a load balancer
  ID is one token of the vendor, so neither contains a dot; for such a name and ID, and
  every region, parsing the hostname \<open>loadBalancerDomain\<close> produces gives back exactly the
  ID. So on a service resolved by its ingress status (no explicit ID annotation) that has
  an ingress hostname produced for the ID, and none that encodes another ID,
  \<open>findLoadBalancer\<close> is the fetch by that ID, for every vendor API and naming function: it
  resolves to the record the vendor answers that ID with.
\<close>

theorem ingress_hostname_roundtrip:
  assumes "CHR ''.'' \<notin> set name" and "CHR ''.'' \<notin> set lbid"
  shows "lbidFromHostname (loadBalancerDomain name lbid region) = Some lbid \<and>
         (Annotations service ServiceAnnotationLoadBalancerId = None \<and>
          ingress \<in> set (Ingress service) \<and>
          Hostname ingress = loadBalancerDomain name lbid region \<and>
          (\<forall>i\<in>set (Ingress service).
             lbidFromHostname (Hostname i) = None \<or>
             lbidFromHostname (Hostname i) = Some lbid) \<longrightarrow>
            fromLoadBalancerStatus service = Some lbid \<and>
            findLoadBalancer derive api service st = findLoadBalancerByID api lbid st \<and>
            (api \<lparr>arg_LoadBalancerId = lbid, arg_LoadBalancerName = []\<rparr> st =
               (Inr (lb # lbs), st') \<longrightarrow>
             findLoadBalancer derive api service st = (Inr (Some lb), st')))"
proof (intro conjI impI)
  show parse: "lbidFromHostname (loadBalancerDomain name lbid region) = Some lbid"
    using assms by (rule lbidFromHostname_loadBalancerDomain)
  assume svc: "Annotations service ServiceAnnotationLoadBalancerId = None \<and>
      ingress \<in> set (Ingress service) \<and>
      Hostname ingress = loadBalancerDomain name lbid region \<and>
      (\<forall>i\<in>set (Ingress service).
         lbidFromHostname (Hostname i) = None \<or>
         lbidFromHostname (Hostname i) = Some lbid)"
  then have "lbidFromIngress (Ingress service) = Some lbid"
    using parse lbidFromIngress_only [of ingress "Ingress service" lbid] by simp
  then show status: "fromLoadBalancerStatus service = Some lbid"
    by (simp add: fromLoadBalancerStatus_def)
  with svc show by_id: "findLoadBalancer derive api service st = findLoadBalancerByID api lbid st"
    by (simp add: findLoadBalancer_def)
  assume "api \<lparr>arg_LoadBalancerId = lbid, arg_LoadBalancerName = []\<rparr> st = (Inr (lb # lbs), st')"
  then have "findLoadBalancerByID api lbid st = (Inr (Some lb), st')"
    by (simp add: findLoadBalancerByID_def)
  with by_id show "findLoadBalancer derive api service st = (Inr (Some lb), st')"
    by simp
qed

theorem ingress_hostname_roundtrip_witness:
  "lbidFromHostname
     (loadBalancerDomain ''my-service'' ''lb-bp1ids9hmq5924m6uk5w1-ingress'' ''cn-hangzhou'') =
     Some ''lb-bp1ids9hmq5924m6uk5w1-ingress'' \<and>
   (\<exists>found base'.
      findLoadBalancer name_from_uid describeLoadBalancers service_ingress
        (newBaseLoadbalancer 0) = (Inr (Some found), base') \<and>
      LoadBalancerId found = ''lb-bp1ids9hmq5924m6uk5w1-ingress'')"
proof -
  let ?lbid = "''lb-bp1ids9hmq5924m6uk5w1-ingress''"
  obtain b where base: "newBaseLoadbalancer 0 = [b]"
    by (simp add: newBaseLoadbalancer_def)
  have dotfree: "CHR ''.'' \<notin> set ''my-service''" "CHR ''.'' \<notin> set ?lbid"
    by simp_all
  have svc: "Annotations service_ingress ServiceAnnotationLoadBalancerId = None \<and>
      test_ingress \<in> set (Ingress service_ingress) \<and>
      Hostname test_ingress = loadBalancerDomain ''my-service'' ?lbid ''cn-hangzhou'' \<and>
      (\<forall>i\<in>set (Ingress service_ingress).
         lbidFromHostname (Hostname i) = None \<or> lbidFromHostname (Hostname i) = Some ?lbid)"
    using test_ingress_lbid
    by (simp add: service_ingress_def service_test_def test_ingress_def LOADBALANCER_ID_def)
  have answer: "describeLoadBalancers \<lparr>arg_LoadBalancerId = ?lbid, arg_LoadBalancerName = []\<rparr> [b] =
      (Inr (b\<lparr>LoadBalancerId := ?lbid\<rparr> # []), [b\<lparr>LoadBalancerId := ?lbid\<rparr>])"
    by (simp add: describeLoadBalancers_by_id)
  note roundtrip =
    ingress_hostname_roundtrip [where name = "''my-service''" and lbid = ?lbid
      and region = "''cn-hangzhou''" and service = service_ingress
      and ingress = test_ingress and derive = name_from_uid
      and api = describeLoadBalancers and st = "[b]"
      and lb = "b\<lparr>LoadBalancerId := ?lbid\<rparr>" and lbs = "[]"
      and st' = "[b\<lparr>LoadBalancerId := ?lbid\<rparr>]", OF dotfree]
  have parse: "lbidFromHostname (loadBalancerDomain ''my-service'' ?lbid ''cn-hangzhou'') =
      Some ?lbid"
    using roundtrip by blast
  have found: "findLoadBalancer name_from_uid describeLoadBalancers service_ingress [b] =
      (Inr (Some (b\<lparr>LoadBalancerId := ?lbid\<rparr>)), [b\<lparr>LoadBalancerId := ?lbid\<rparr>])"
    using roundtrip svc answer by blast
  from parse found show ?thesis
    by (simp add: base)
qed

section \<open>Reconciling the backend servers twice\<close>

lemma reconcile_converged:
  assumes "set (map ServerId (vendor_backends v)) = set nodes"
  shows "reconcileBackendServers answers lbid weight nodes v = (None, v)"
proof -
  have "filter (\<lambda>n. n \<notin> set (map ServerId (vendor_backends v))) nodes = []"
    using assms by (simp add: filter_empty_conv)
  moreover have "filter (\<lambda>c. c \<notin> set nodes) (map ServerId (vendor_backends v)) = []"
    using assms by (auto simp add: filter_empty_conv)
  ultimately show ?thesis
    by (simp add: reconcileBackendServers_def)
qed

lemma reconcile_success_converges:
  assumes "reconcileBackendServers answers lbid weight nodes v = (None, v1)"
  shows "set (map ServerId (vendor_backends v1)) = set nodes"
  using assms
  by (auto simp add: reconcileBackendServers_def Let_def vendor_AddBackendServers_def
      vendor_RemoveBackendServers_def filter_empty_conv image_Un image_image
      split: if_splits option.splits prod.splits)

lemma reconcile_after_completed_pass:
  assumes "reconcileBackendServers answers1 lbid weight nodes v = (None, v1)"
  shows "reconcileBackendServers answers2 lbid weight nodes v1 = (None, v1)"
proof -
  have "set (map ServerId (vendor_backends v1)) = set nodes"
    using assms by (rule reconcile_success_converges)
  then show ?thesis
    by (rule reconcile_converged)
qed

lemma reconcile_accepted_completes:
  "fst (reconcileBackendServers answers_ok lbid weight nodes v) = None"
  by (simp add: reconcileBackendServers_def Let_def vendor_AddBackendServers_def
      vendor_RemoveBackendServers_def answers_ok_def)

text \<open>
  C9. Backend reconciliation is idempotent. For every load balancer, every membership the
  vendor holds for it and every desired node set: the pass of the diff-and-apply step,
  its calls applied by the vendor, returns nil, and a second pass with the same node set
  returns nil and leaves the vendor's side as the first pass left it. The log of mutation
  calls after the second pass is the log after the first, so the second pass issues no
  add-backend and no remove-backend call.
\<close>

theorem reconcile_twice_no_mutation:
  "fst (reconcileBackendServers answers_ok lbid weight nodes v) = None \<and>
   reconcileBackendServers answers2 lbid weight nodes
     (snd (reconcileBackendServers answers_ok lbid weight nodes v)) =
     (None, snd (reconcileBackendServers answers_ok lbid weight nodes v)) \<and>
   vendor_calls
     (snd (reconcileBackendServers answers2 lbid weight nodes
        (snd (reconcileBackendServers answers_ok lbid weight nodes v)))) =
     vendor_calls (snd (reconcileBackendServers answers_ok lbid weight nodes v))"
proof -
  have first: "fst (reconcileBackendServers answers_ok lbid weight nodes v) = None"
    by (rule reconcile_accepted_completes)
  then have "reconcileBackendServers answers_ok lbid weight nodes v =
      (None, snd (reconcileBackendServers answers_ok lbid weight nodes v))"
    by (simp add: prod_eq_iff)
  then have "reconcileBackendServers answers2 lbid weight nodes
      (snd (reconcileBackendServers answers_ok lbid weight nodes v)) =
      (None, snd (reconcileBackendServers answers_ok lbid weight nodes v))"
    by (rule reconcile_after_completed_pass)
  with first show ?thesis by simp
qed

lemma reconcile_sample_pass:
  "reconcileBackendServers answers_ok ''lb-1'' 100 [''i-1'', ''i-2''] vendor_one_stale =
     (None,
      \<lparr>vendor_backends =
         [\<lparr>ServerId = ''i-1'', Weight = 100\<rparr>, \<lparr>ServerId = ''i-2'', Weight = 100\<rparr>],
       vendor_calls =
         [AddBackendServers ''lb-1''
            [\<lparr>ServerId = ''i-1'', Weight = 100\<rparr>, \<lparr>ServerId = ''i-2'', Weight = 100\<rparr>],
          RemoveBackendServers ''lb-1'' [''i-old'']]\<rparr>)"
  by (simp add: reconcileBackendServers_def vendor_AddBackendServers_def
      vendor_RemoveBackendServers_def answers_ok_def vendor_one_stale_def)

theorem reconcile_twice_no_mutation_witness:
  "reconcileBackendServers answers_ok ''lb-1'' 100 [''i-1'', ''i-2'']
     \<lparr>vendor_backends =
        [\<lparr>ServerId = ''i-1'', Weight = 100\<rparr>, \<lparr>ServerId = ''i-2'', Weight = 100\<rparr>],
      vendor_calls =
        [AddBackendServers ''lb-1''
           [\<lparr>ServerId = ''i-1'', Weight = 100\<rparr>, \<lparr>ServerId = ''i-2'', Weight = 100\<rparr>],
         RemoveBackendServers ''lb-1'' [''i-old'']]\<rparr> =
   (None,
    \<lparr>vendor_backends =
       [\<lparr>ServerId = ''i-1'', Weight = 100\<rparr>, \<lparr>ServerId = ''i-2'', Weight = 100\<rparr>],
     vendor_calls =
       [AddBackendServers ''lb-1''
          [\<lparr>ServerId = ''i-1'', Weight = 100\<rparr>, \<lparr>ServerId = ''i-2'', Weight = 100\<rparr>],
        RemoveBackendServers ''lb-1'' [''i-old'']]\<rparr>)"
  using reconcile_twice_no_mutation [of "''lb-1''" 100 "[''i-1'', ''i-2'']" vendor_one_stale
      answers_ok]
  by (simp add: reconcile_sample_pass)

end
